theory Spec2Isabelle
  imports Complex_Main "HOL-Library.AList" "HOL-Library.Char_ord" "HOL-Library.List_Lexorder"
    "HOL-Library.Product_Lexorder"
begin

section \<open>Reshaping air-quality tables: the model of format\_by\_location.py\<close>

text \<open>
  The development embeds the pure core of \<^verbatim>\<open>Cleaning_Air_Data/format_by_location.py\<close>:
  the sheet-name sanitizer, the label helper, the grouping configurator, the long
  projection, the wide pivot and the per-group sheet split. Strings are lists of
  characters with code points below 256 (\<^typ>\<open>string\<close>); the dialogs of the script are
  inputs of the model.
\<close>

subsection \<open>Python errors\<close>

text \<open>
  Exceptions are values. \<open>IndexError\<close> is the out-of-range string index of
  \<^verbatim>\<open>abc[i]\<close>, \<open>KeyError\<close> a column that a DataFrame does not have and
  \<open>CannotInsert\<close> the \<^verbatim>\<open>ValueError\<close> of \<^verbatim>\<open>reset_index\<close> for an index name that is
  already a column; the remaining constructors are the \<^verbatim>\<open>ValueError\<close>s of
  \<^verbatim>\<open>choose_grouping\<close>, one per message.
\<close>

datatype py_error =
    IndexError
  | KeyError string
  | CannotInsert string
  | DateColumnNotFound
  | ValueColumnNotFound
  | InvalidGroupingChoice
  | NoColumnFor string
  | LatLonNotFound
  | NoCustomColumns
  | ColumnsNotFound "string list"

subsection \<open>Sheet names\<close>

text \<open>
  \<^verbatim>\<open>str.replace(a, b)\<close> for one-character \<open>a\<close> and \<open>b\<close> rewrites every occurrence.
\<close>

definition replace_chr :: "char \<Rightarrow> char \<Rightarrow> string \<Rightarrow> string" where
  "replace_chr a b s = map (\<lambda>c. if c = a then b else c) s"

text \<open>
  \<^verbatim>\<open>safe_sheet_name(s)\<close>: \<open>None\<close> and the empty string are falsy and give the fallback;
  otherwise the seven replacements run in the order of the source and the result is cut
  to 31 characters when it is longer.
\<close>

definition safe_sheet_name :: "string option \<Rightarrow> string" where
  "safe_sheet_name so =
     (case so of
        None \<Rightarrow> ''Sheet1''
      | Some s \<Rightarrow>
          if s = [] then ''Sheet1''
          else
            let s1 = replace_chr (CHR ''/'') (CHR ''-'') s;
                s2 = replace_chr (CHR '':'') (CHR ''-'') s1;
                s3 = replace_chr (CHR 0x5C) (CHR ''-'') s2;
                s4 = replace_chr (CHR ''*'') (CHR ''-'') s3;
                s5 = replace_chr (CHR ''?'') (CHR ''-'') s4;
                s6 = replace_chr (CHR ''['') (CHR ''('') s5;
                s7 = replace_chr (CHR '']'') (CHR '')'') s6
            in if length s7 > 31 then take 31 s7 else s7)"

text \<open>The fixed mapping of the specification, one character at a time.\<close>

definition sheet_subst :: "char \<Rightarrow> char" where
  "sheet_subst c =
     (if c = CHR ''/'' \<or> c = CHR '':'' \<or> c = CHR 0x5C \<or> c = CHR ''*'' \<or> c = CHR ''?''
      then CHR ''-''
      else if c = CHR ''['' then CHR ''(''
      else if c = CHR '']'' then CHR '')''
      else c)"

subsection \<open>Column labels\<close>

definition abc :: string where
  "abc = ''ABCDEFGHIJKLMNOPQRSTUVWXYZ''"

text \<open>
  The body of the \<^verbatim>\<open>for i, p in enumerate(sorted(pollutants))\<close> loop of
  \<^verbatim>\<open>label_style_map\<close>. The dictionary \<open>out\<close> is an association list in insertion order;
  \<open>AList.update\<close> overwrites a key in place and appends a new one, as a Python dict does.
  \<^verbatim>\<open>abc[i]\<close> is evaluated only when \<open>use_abc\<close> holds and raises \<open>IndexError\<close> from
  index 26 on.
\<close>

fun label_loop :: "bool \<Rightarrow> nat \<Rightarrow> string list \<Rightarrow> (string \<times> string) list
    \<Rightarrow> py_error + (string \<times> string) list" where
  "label_loop use_abc i [] out = Inr out"
| "label_loop use_abc i (p # ps) out =
     (if use_abc then
        (if i < length abc
         then label_loop use_abc (Suc i) ps
                (AList.update p (''Pollutant '' @ [abc ! i] @ '' ('' @ p @ '')'') out)
         else Inl IndexError)
      else label_loop use_abc (Suc i) ps (AList.update p p out))"

definition label_style_map :: "string list \<Rightarrow> bool \<Rightarrow> py_error + (string \<times> string) list" where
  "label_style_map pollutants use_abc = label_loop use_abc 0 (sort pollutants) []"

text \<open>The label that position \<open>i\<close> of the sorted list receives.\<close>

definition label_at :: "bool \<Rightarrow> nat \<Rightarrow> string \<Rightarrow> string" where
  "label_at use_abc i p =
     (if use_abc then ''Pollutant '' @ [abc ! i] @ '' ('' @ p @ '')'' else p)"

subsection \<open>Tables\<close>

text \<open>
  A cell of a DataFrame: a missing value (\<open>NaN\<close>, \<open>None\<close> and \<open>NaT\<close> alike, that is,
  whatever \<^verbatim>\<open>pd.isna\<close> accepts), a text, a number or a calendar date (year, month, day).
  A number is a float, held as the rational number that it is; what float arithmetic
  does to it (rounding, the mean) is a parameter of the model, see below.
\<close>

datatype cell = NaN | Str string | Num rat | Date nat nat nat

text \<open>
  A DataFrame is held by columns, in column order, over a row index of \<open>nrows\<close>
  positions. \<^verbatim>\<open>df[c] = values\<close> overwrites column \<open>c\<close> in place or appends it as the
  last column, which is \<open>AList.update\<close>.
\<close>

record dataframe =
  nrows :: nat
  cols :: "(string \<times> cell list) list"

definition columns :: "dataframe \<Rightarrow> string list" where
  "columns df = map fst (cols df)"

text \<open>Tables as \<^verbatim>\<open>read_csv\<close> builds them: distinct column names, full columns.\<close>

definition wf :: "dataframe \<Rightarrow> bool" where
  "wf df \<longleftrightarrow> distinct (columns df) \<and> list_all (\<lambda>(c, vs). length vs = nrows df) (cols df)"

text \<open>\<^verbatim>\<open>df[c]\<close> for a column \<open>c\<close> that the caller has checked to exist.\<close>

definition column :: "dataframe \<Rightarrow> string \<Rightarrow> cell list" where
  "column df c = (case map_of (cols df) c of Some vs \<Rightarrow> vs | None \<Rightarrow> [])"

definition set_column :: "dataframe \<Rightarrow> string \<Rightarrow> cell list \<Rightarrow> dataframe" where
  "set_column df c vs = df\<lparr>cols := AList.update c vs (cols df)\<rparr>"

text \<open>\<^verbatim>\<open>df[names]\<close>: the listed columns in the listed order, over the same rows.\<close>

definition select :: "dataframe \<Rightarrow> string list \<Rightarrow> dataframe" where
  "select df names = df\<lparr>cols := map (\<lambda>c. (c, column df c)) names\<rparr>"

text \<open>
  The cell-level conversions and the float arithmetic of pandas and Python are
  parameters of the model: \<open>to_date x\<close> is
  \<^verbatim>\<open>pd.to_datetime(x, errors="coerce").date()\<close> (\<open>None\<close> for \<open>NaT\<close>), \<open>to_num x\<close> is
  \<^verbatim>\<open>pd.to_numeric(x, errors="coerce")\<close> (\<open>None\<close> for \<open>NaN\<close>), \<open>round3 r\<close> is the float
  that \<^verbatim>\<open>.round(3)\<close> returns for the float \<open>r\<close>, \<open>mean rs\<close> is the float that
  \<^verbatim>\<open>aggfunc="mean"\<close> returns for the floats \<open>rs\<close> of one group, and \<open>py_str x\<close> is
  \<^verbatim>\<open>str(x)\<close>. A float is held as the rational number that it is.
\<close>

record coercions =
  to_date :: "cell \<Rightarrow> (nat \<times> nat \<times> nat) option"
  to_num :: "cell \<Rightarrow> rat option"
  round3 :: "rat \<Rightarrow> rat"
  mean :: "rat list \<Rightarrow> rat"
  py_str :: "cell \<Rightarrow> string"

definition date_of :: "coercions \<Rightarrow> cell \<Rightarrow> cell" where
  "date_of P x = (case to_date P x of None \<Rightarrow> NaN | Some (y, m, d) \<Rightarrow> Date y m d)"

text \<open>\<^verbatim>\<open>pd.to_numeric(x, errors="coerce")\<close> followed by \<^verbatim>\<open>.round(3)\<close>, on one cell.\<close>

definition numeric3 :: "coercions \<Rightarrow> cell \<Rightarrow> cell" where
  "numeric3 P x = (case to_num P x of None \<Rightarrow> NaN | Some r \<Rightarrow> Num (round3 P r))"

text \<open>\<^verbatim>\<open>coalesce(df, candidates)\<close> and \<^verbatim>\<open>pick_first(df, names)\<close>: the same loop twice.\<close>

fun coalesce :: "dataframe \<Rightarrow> string list \<Rightarrow> string option" where
  "coalesce df [] = None"
| "coalesce df (c # cs) = (if c \<in> set (columns df) then Some c else coalesce df cs)"

fun pick_first :: "dataframe \<Rightarrow> string list \<Rightarrow> string option" where
  "pick_first df [] = None"
| "pick_first df (n # ns) = (if n \<in> set (columns df) then Some n else pick_first df ns)"

text \<open>\<^verbatim>\<open>ensure_date(df, date_col)\<close> overwrites the column of the caller's DataFrame.\<close>

definition ensure_date :: "coercions \<Rightarrow> dataframe \<Rightarrow> string \<Rightarrow> dataframe" where
  "ensure_date P df date_col = set_column df date_col (map (date_of P) (column df date_col))"

subsection \<open>Text helpers\<close>

text \<open>
  \<^verbatim>\<open>str.strip()\<close>, \<^verbatim>\<open>str.lower()\<close> and \<^verbatim>\<open>str.split(",")\<close> on text whose
  characters are the code points below 256. The white space of \<^verbatim>\<open>str.isspace\<close> in
  that range is 9 to 13, 28 to 32, 133 and 160; the letters that \<^verbatim>\<open>str.lower\<close> changes
  are 65 to 90 and 192 to 222 without 215, each moved up by 32.
\<close>

definition py_isspace :: "char \<Rightarrow> bool" where
  "py_isspace c =
     (let n = (of_char c :: nat)
      in (9 \<le> n \<and> n \<le> 13) \<or> (28 \<le> n \<and> n \<le> 32) \<or> n = 133 \<or> n = 160)"

definition py_strip :: "string \<Rightarrow> string" where
  "py_strip s = rev (dropWhile py_isspace (rev (dropWhile py_isspace s)))"

definition py_lower_chr :: "char \<Rightarrow> char" where
  "py_lower_chr c =
     (let n = (of_char c :: nat)
      in if (65 \<le> n \<and> n \<le> 90) \<or> (192 \<le> n \<and> n \<le> 222 \<and> n \<noteq> 215)
         then char_of (n + 32) else c)"

definition py_lower :: "string \<Rightarrow> string" where
  "py_lower s = map py_lower_chr s"

fun py_split :: "char \<Rightarrow> string \<Rightarrow> string list" where
  "py_split sep [] = [[]]"
| "py_split sep (c # cs) =
     (if c = sep then [] # py_split sep cs
      else (case py_split sep cs of [] \<Rightarrow> [[c]] | w # ws \<Rightarrow> (c # w) # ws))"

fun py_join :: "string \<Rightarrow> string list \<Rightarrow> string" where
  "py_join sep [] = []"
| "py_join sep [x] = x"
| "py_join sep (x # y # ys) = x @ sep @ py_join sep (y # ys)"

subsection \<open>The grouping configurator\<close>

text \<open>
  What the user types into the four \<^verbatim>\<open>simpledialog.askstring\<close> prompts of
  \<^verbatim>\<open>choose_grouping\<close>; \<open>None\<close> is a cancelled dialog.
\<close>

record dialogs =
  date_answer :: "string option"
  value_answer :: "string option"
  grouping_answer :: "string option"
  custom_answer :: "string option"

text \<open>\<^verbatim>\<open>ask_choice(title, prompt, choices)\<close>, given the typed string.\<close>

definition ask_choice :: "string option \<Rightarrow> string list \<Rightarrow> string option" where
  "ask_choice answer choices =
     (case answer of
        None \<Rightarrow> None
      | Some s \<Rightarrow>
          if s = [] then None
          else let s' = py_lower (py_strip s)
               in if s' \<in> set (map py_lower choices) then Some s' else None)"

definition GROUP_MAP :: "string \<Rightarrow> string list" where
  "GROUP_MAP k =
     (if k = ''state'' then [''State Name'', ''State'']
      else if k = ''city'' then [''City Name'', ''City'']
      else if k = ''county'' then [''County Name'', ''County'']
      else if k = ''site'' then [''Site Num'', ''Site Number'']
      else if k = ''cbsa'' then [''CBSA Name'', ''CBSA'', ''CBSA Name (2018)'', ''CBSA Code'']
      else [''Latitude'', ''Site Latitude'', ''Lat'',
            ''Longitude'', ''Site Longitude'', ''Lon'', ''Long''])"

text \<open>Lines 193 to 200: the date column, auto-detected or typed.\<close>

definition detect_date_col :: "dialogs \<Rightarrow> dataframe \<Rightarrow> py_error + string" where
  "detect_date_col io df =
     (case coalesce df [''Date'', ''Date Local'', ''Date Observed'', ''Date GMT''] of
        Some c \<Rightarrow> Inr c
      | None \<Rightarrow>
          (case date_answer io of
             None \<Rightarrow> Inl DateColumnNotFound
           | Some s \<Rightarrow>
               if s = [] \<or> s \<notin> set (columns df) then Inl DateColumnNotFound else Inr s))"

text \<open>Lines 205 to 211: the value column, \<open>Arithmetic Mean\<close> or typed.\<close>

definition detect_val_col :: "dialogs \<Rightarrow> dataframe \<Rightarrow> py_error + string" where
  "detect_val_col io df =
     (if ''Arithmetic Mean'' \<in> set (columns df) then Inr ''Arithmetic Mean''
      else
        (case value_answer io of
           None \<Rightarrow> Inl ValueColumnNotFound
         | Some s \<Rightarrow>
             if s = [] \<or> s \<notin> set (columns df) then Inl ValueColumnNotFound else Inr s))"

text \<open>The list comprehension of line 248.\<close>

definition custom_parts :: "string \<Rightarrow> string list" where
  "custom_parts typed =
     map py_strip (filter (\<lambda>c. py_strip c \<noteq> []) (py_split (CHR '','') typed))"

text \<open>Lines 214 to 256: the grouping columns for the typed choice.\<close>

definition resolve_group_cols :: "dialogs \<Rightarrow> dataframe \<Rightarrow> py_error + string list" where
  "resolve_group_cols io df =
     (case ask_choice (grouping_answer io)
             [''state'', ''city'', ''county'', ''site'', ''cbsa'', ''coordinates'', ''custom''] of
        None \<Rightarrow> Inl InvalidGroupingChoice
      | Some choice \<Rightarrow>
          if choice \<in> set [''state'', ''city'', ''county'', ''site'', ''cbsa''] then
            (case coalesce df (GROUP_MAP choice) of
               None \<Rightarrow> Inl (NoColumnFor choice)
             | Some col \<Rightarrow> Inr [col])
          else if choice = ''coordinates'' then
            (case (coalesce df (take 3 (GROUP_MAP ''coordinates'')),
                   coalesce df (drop 3 (GROUP_MAP ''coordinates''))) of
               (Some lat_col, Some lon_col) \<Rightarrow> Inr [lat_col, lon_col]
             | _ \<Rightarrow> Inl LatLonNotFound)
          else if choice = ''custom'' then
            (case custom_answer io of
               None \<Rightarrow> Inl NoCustomColumns
             | Some typed \<Rightarrow>
                 if typed = [] then Inl NoCustomColumns
                 else
                   let parts = custom_parts typed;
                       missing = filter (\<lambda>c. c \<notin> set (columns df)) parts
                   in if missing \<noteq> [] then Inl (ColumnsNotFound missing) else Inr parts)
          else Inr [])"

text \<open>
  \<^verbatim>\<open>choose_grouping(df)\<close>. The first component of the result is the caller's DataFrame
  object as the call leaves it, whether the call returns or raises; the second is the
  exception or the returned \<open>(date_col, val_col, group_cols)\<close> (the returned \<open>df\<close> is that
  same object).
\<close>

definition choose_grouping :: "coercions \<Rightarrow> dialogs \<Rightarrow> dataframe
    \<Rightarrow> dataframe \<times> (py_error + string \<times> string \<times> string list)" where
  "choose_grouping P io df =
     (case detect_date_col io df of
        Inl e \<Rightarrow> (df, Inl e)
      | Inr date_col \<Rightarrow>
          let df1 = ensure_date P df date_col in
          (case detect_val_col io df1 of
             Inl e \<Rightarrow> (df1, Inl e)
           | Inr val_col \<Rightarrow>
               (case resolve_group_cols io df1 of
                  Inl e \<Rightarrow> (df1, Inl e)
                | Inr group_cols \<Rightarrow> (df1, Inr (date_col, val_col, group_cols)))))"

subsection \<open>The long projection\<close>

definition LONG_sample_id :: "string list" where
  "LONG_sample_id = [''Sample ID'', ''SampleID'', ''Sample_Id'']"

definition LONG_pollutant_name :: "string list" where
  "LONG_pollutant_name = [''Pollutant Name'', ''Pollutant'']"

definition LONG_sample_duration :: "string list" where
  "LONG_sample_duration = [''Sample Duration'', ''Sample_Duration'', ''Duration'']"

text \<open>The loop of lines 315 to 319 over \<open>group_cols\<close>.\<close>

fun append_groups :: "dataframe \<Rightarrow> string list \<Rightarrow> string list \<Rightarrow> string list" where
  "append_groups df ordered [] = ordered"
| "append_groups df ordered (c # cs) =
     (if c \<notin> set ordered \<and> c \<in> set (columns df)
      then append_groups df (ordered @ [c]) cs
      else append_groups df ordered cs)"

definition opt_list :: "string option \<Rightarrow> string list" where
  "opt_list x = (case x of None \<Rightarrow> [] | Some c \<Rightarrow> [c])"

text \<open>
  \<^verbatim>\<open>make_long_df(df, date_col, value_col, group_cols)\<close> works on a copy; reading a
  column that the table does not have raises \<open>KeyError\<close>.
\<close>

definition make_long_df :: "coercions \<Rightarrow> dataframe \<Rightarrow> string \<Rightarrow> string \<Rightarrow> string list
    \<Rightarrow> py_error + dataframe" where
  "make_long_df P df date_col value_col group_cols =
     (if date_col \<notin> set (columns df) then Inl (KeyError date_col)
      else
        let df1 = set_column df ''Date'' (map (date_of P) (column df date_col));
            sid_col = pick_first df1 LONG_sample_id;
            pol_col = pick_first df1 LONG_pollutant_name;
            dur_col = pick_first df1 LONG_sample_duration
        in if value_col \<notin> set (columns df1) then Inl (KeyError value_col)
           else
             let df2 = set_column df1 value_col (map (numeric3 P) (column df1 value_col));
                 ordered0 = opt_list sid_col @ opt_list pol_col @ opt_list dur_col
                              @ [''Date'', value_col];
                 ordered1 = append_groups df2 ordered0 group_cols;
                 ordered = filter (\<lambda>c. c \<in> set (columns df2)) ordered1
             in Inr (select df2 ordered))"

subsection \<open>Grouping and the per-group sheets\<close>

definition cell_at :: "dataframe \<Rightarrow> string \<Rightarrow> nat \<Rightarrow> cell" where
  "cell_at df c i = (let vs = column df c in if i < length vs then vs ! i else NaN)"

text \<open>The key of row \<open>i\<close>: its values in the grouping columns, in their order.\<close>

definition row_key :: "dataframe \<Rightarrow> string list \<Rightarrow> nat \<Rightarrow> cell list" where
  "row_key df names i = map (\<lambda>c. cell_at df c i) names"

definition take_rows :: "dataframe \<Rightarrow> nat list \<Rightarrow> dataframe" where
  "take_rows df idxs =
     \<lparr>nrows = length idxs,
      cols = map (\<lambda>(c, vs). (c, map (\<lambda>i. if i < length vs then vs ! i else NaN) idxs))
               (cols df)\<rparr>"

text \<open>
  The order in which pandas lists group keys of one kind: numbers by value, texts by
  code point, dates by calendar.
\<close>

definition cell_rank :: "cell \<Rightarrow> nat \<times> rat \<times> string \<times> nat \<times> nat \<times> nat" where
  "cell_rank x =
     (case x of
        Num r \<Rightarrow> (0, r, [], 0, 0, 0)
      | Str s \<Rightarrow> (1, 0, s, 0, 0, 0)
      | Date y m d \<Rightarrow> (2, 0, [], y, m, d)
      | NaN \<Rightarrow> (3, 0, [], 0, 0, 0))"

text \<open>
  \<^verbatim>\<open>df.groupby(names)\<close>, iterated: with the defaults of pandas (\<^verbatim>\<open>dropna=True\<close>,
  \<^verbatim>\<open>sort=True\<close>) a row with a missing value in a grouping column belongs to no group,
  the groups come by sorted key, and each group holds its rows in table order.
\<close>

definition groupby :: "dataframe \<Rightarrow> string list \<Rightarrow> py_error + (cell list \<times> dataframe) list" where
  "groupby df names =
     (case find (\<lambda>c. c \<notin> set (columns df)) names of
        Some c \<Rightarrow> Inl (KeyError c)
      | None \<Rightarrow>
          let kept = filter (\<lambda>i. NaN \<notin> set (row_key df names i)) [0..<nrows df];
              keys = sort_key (map cell_rank) (remdups (map (row_key df names) kept))
          in Inr (map (\<lambda>k. (k, take_rows df (filter (\<lambda>i. row_key df names i = k) kept))) keys))"

text \<open>
  Lines 412 to 419 (wide) and 441 to 448 (long): the \<^verbatim>\<open>to_excel\<close> calls of one workbook,
  as pairs of sheet name and table, in the order written.
\<close>

definition export_sheets :: "coercions \<Rightarrow> dataframe \<Rightarrow> string list
    \<Rightarrow> py_error + (string \<times> dataframe) list" where
  "export_sheets P df group_cols =
     (if group_cols \<noteq> [] then
        (case groupby df group_cols of
           Inl e \<Rightarrow> Inl e
         | Inr groups \<Rightarrow>
             Inr (map (\<lambda>(keys, sub).
                    (let sheet = py_join ''-'' (map (py_str P) (filter (\<lambda>k. k \<noteq> NaN) keys))
                     in safe_sheet_name (Some (if sheet = [] then ''Sheet1'' else sheet)), sub))
                  groups))
      else Inr [(''All'', df)])"

subsection \<open>The wide pivot\<close>

text \<open>\<^verbatim>\<open>aggfunc="mean"\<close>: the mean of the numbers of a group; missing values are skipped.\<close>

definition numbers_of :: "cell list \<Rightarrow> rat list" where
  "numbers_of vs = concat (map (\<lambda>v. case v of Num r \<Rightarrow> [r] | _ \<Rightarrow> []) vs)"

definition mean_of :: "coercions \<Rightarrow> rat list \<Rightarrow> cell" where
  "mean_of P xs = (if xs = [] then NaN else Num (mean P xs))"

definition mean_cell :: "coercions \<Rightarrow> cell list \<Rightarrow> cell" where
  "mean_cell P vs = mean_of P (numbers_of vs)"






subsection \<open>Conversions used in the examples\<close>

text \<open>
  An instance of the conversions for the cells of the examples below: a date is an ISO
  text \<open>YYYY-MM-DD\<close> or already a date, a number is a numeric cell, and a text key prints
  as itself. Cells that read as neither (a blank, \<open>n/a\<close>) are missing, as in pandas.
  Rounding and mean are those of exact decimal arithmetic: to the nearest multiple of
  1/1000, a tie to the even one, and the sum over the count. On the numbers of the
  examples (15.2, 9.81, 16.0, 3.5) float64 gives the same results.
\<close>

definition round_half_even :: "rat \<Rightarrow> int" where
  "round_half_even x =
     (let f = \<lfloor>x\<rfloor>; d = x - of_int f
      in if d < 1 / 2 then f else if 1 / 2 < d then f + 1 else if even f then f else f + 1)"

definition decimal_round3 :: "rat \<Rightarrow> rat" where
  "decimal_round3 r = of_int (round_half_even (r * 1000)) / 1000"

definition decimal_mean :: "rat list \<Rightarrow> rat" where
  "decimal_mean xs = sum_list xs / of_nat (length xs)"

definition digit_of :: "char \<Rightarrow> nat option" where
  "digit_of c =
     (let n = (of_char c :: nat) in if 48 \<le> n \<and> n \<le> 57 then Some (n - 48) else None)"

definition number_of :: "string \<Rightarrow> nat option" where
  "number_of s =
     (if s = [] then None
      else foldl (\<lambda>acc c. case (acc, digit_of c) of
                             (Some a, Some d) \<Rightarrow> Some (10 * a + d)
                           | _ \<Rightarrow> None)
             (Some 0) s)"

definition days_in_month :: "nat \<Rightarrow> nat \<Rightarrow> nat" where
  "days_in_month y m =
     (if m = 2 then (if y mod 4 = 0 \<and> (y mod 100 \<noteq> 0 \<or> y mod 400 = 0) then 29 else 28)
      else if m \<in> {4, 6, 9, 11} then 30 else 31)"

definition iso_date :: "string \<Rightarrow> (nat \<times> nat \<times> nat) option" where
  "iso_date s =
     (if length s = 10 \<and> s ! 4 = CHR ''-'' \<and> s ! 7 = CHR ''-'' then
        (case (number_of (take 4 s), number_of (take 2 (drop 5 s)), number_of (drop 8 s)) of
           (Some y, Some m, Some d) \<Rightarrow>
             if 1 \<le> y \<and> 1 \<le> m \<and> m \<le> 12 \<and> 1 \<le> d \<and> d \<le> days_in_month y m
             then Some (y, m, d) else None
         | _ \<Rightarrow> None)
      else None)"

definition csv_coercions :: coercions where
  "csv_coercions =
     \<lparr>to_date = (\<lambda>x. case x of Date y m d \<Rightarrow> Some (y, m, d) | Str s \<Rightarrow> iso_date s
                       | _ \<Rightarrow> None),
      to_num = (\<lambda>x. case x of Num r \<Rightarrow> Some r | _ \<Rightarrow> None),
      round3 = decimal_round3,
      mean = decimal_mean,
      py_str = (\<lambda>x. case x of Str s \<Rightarrow> s | _ \<Rightarrow> ''nan'')\<rparr>"

text \<open>
  What the conversions of pandas do on cells that are already converted: a date stays
  that date, a number stays that number, a missing value stays missing, and a number
  rounded to three places is not changed by rounding it again.
\<close>

definition stable_coercions :: "coercions \<Rightarrow> bool" where
  "stable_coercions P \<longleftrightarrow>
     (\<forall>y m d. to_date P (Date y m d) = Some (y, m, d)) \<and> to_date P NaN = None
     \<and> (\<forall>r. to_num P (Num r) = Some r) \<and> to_num P NaN = None
     \<and> (\<forall>r. round3 P (round3 P r) = round3 P r)"

text \<open>Four measurements as \<^verbatim>\<open>read_csv\<close> delivers them; the last has no state and no value.\<close>

definition air_rows :: dataframe where
  "air_rows =
     \<lparr>nrows = 4,
      cols = [(''Date Local'', [Str ''2025-01-10'', Str ''2025-01-10'', Str ''2025-01-10'',
                                 Str ''2025-01-11'']),
              (''State Name'', [Str ''Maryland'', Str ''Maryland'', Str ''Maryland'', NaN]),
              (''Pollutant Name'', [Str ''NO2'', Str ''PM2.5'', Str ''NO2'', Str ''PM10'']),
              (''Arithmetic Mean'', [Num (152 / 10), Num (981 / 100), Num 16, NaN])]\<rparr>"

text \<open>The long projection of \<open>air_rows\<close> by state.\<close>

definition air_long :: dataframe where
  "air_long =
     \<lparr>nrows = 4,
      cols = [(''Pollutant Name'', [Str ''NO2'', Str ''PM2.5'', Str ''NO2'', Str ''PM10'']),
              (''Date'', [Date 2025 1 10, Date 2025 1 10, Date 2025 1 10, Date 2025 1 11]),
              (''Arithmetic Mean'', [Num (152 / 10), Num (981 / 100), Num 16, NaN]),
              (''State Name'', [Str ''Maryland'', Str ''Maryland'', Str ''Maryland'', NaN])]\<rparr>"

text \<open>A table with a date column and no value column, and a user who cancels every dialog.\<close>

definition dates_only :: dataframe where
  "dates_only =
     \<lparr>nrows = 1,
      cols = [(''Date'', [Str ''2025-01-10'']), (''State'', [Str ''Maryland''])]\<rparr>"

definition no_answers :: dialogs where
  "no_answers =
     \<lparr>date_answer = None, value_answer = None, grouping_answer = None, custom_answer = None\<rparr>"



subsection \<open>Notions used in the proofs about the pivot\<close>

text \<open>The mean of the values of all rows with key \<open>k\<close>.\<close>

definition group_mean :: "coercions \<Rightarrow> dataframe \<Rightarrow> string list \<Rightarrow> string \<Rightarrow> cell list
    \<Rightarrow> cell" where
  "group_mean P df names values k =
     mean_cell P (map (cell_at df values) (filter (\<lambda>i. row_key df names i = k) [0..<nrows df]))"

text \<open>The keys of the groups that survive the averaging, in sorted order.\<close>

definition pivot_keys :: "coercions \<Rightarrow> dataframe \<Rightarrow> string list \<Rightarrow> string
    \<Rightarrow> cell list list" where
  "pivot_keys P df names values =
     filter (\<lambda>k. group_mean P df names values k \<noteq> NaN)
       (sort_key (map cell_rank) (remdups (map (row_key df names)
          (filter (\<lambda>i. NaN \<notin> set (row_key df names i)) [0..<nrows df]))))"

section \<open>Properties\<close>

subsection \<open>The sheet-name sanitizer\<close>

lemma replace_chain:
  "replace_chr (CHR '']'') (CHR '')'')
     (replace_chr (CHR ''['') (CHR ''('')
       (replace_chr (CHR ''?'') (CHR ''-'')
         (replace_chr (CHR ''*'') (CHR ''-'')
           (replace_chr (CHR 0x5C) (CHR ''-'')
             (replace_chr (CHR '':'') (CHR ''-'')
               (replace_chr (CHR ''/'') (CHR ''-'') s)))))) = map sheet_subst s"
  by (induction s) (simp_all add: replace_chr_def sheet_subst_def)

lemma safe_sheet_name_Some:
  "safe_sheet_name (Some s) = (if s = [] then ''Sheet1'' else take 31 (map sheet_subst s))"
  unfolding safe_sheet_name_def Let_def option.case replace_chain
  by simp

text \<open>
  Claim C2. For every input, \<^verbatim>\<open>safe_sheet_name\<close> returns \<open>Sheet1\<close> on \<open>None\<close> and on the
  empty string; on every other string it replaces \<open>/ : \ * ?\<close> by \<open>-\<close>, \<open>[\<close> by \<open>(\<close> and
  \<open>]\<close> by \<open>)\<close>, character by character, and keeps exactly the first 31 characters of
  the result when the input is longer than 31 (the whole result otherwise).
\<close>

theorem safe_sheet_name_spec:
  "safe_sheet_name None = ''Sheet1''
   \<and> safe_sheet_name (Some []) = ''Sheet1''
   \<and> (s \<noteq> [] \<longrightarrow>
        safe_sheet_name (Some s) = take 31 (map sheet_subst s)
        \<and> length (safe_sheet_name (Some s)) = min 31 (length s)
        \<and> (\<forall>i < min 31 (length s). safe_sheet_name (Some s) ! i = sheet_subst (s ! i)))
   \<and> sheet_subst (CHR ''/'') = CHR ''-'' \<and> sheet_subst (CHR '':'') = CHR ''-''
   \<and> sheet_subst (CHR 0x5C) = CHR ''-'' \<and> sheet_subst (CHR ''*'') = CHR ''-''
   \<and> sheet_subst (CHR ''?'') = CHR ''-'' \<and> sheet_subst (CHR ''['') = CHR ''(''
   \<and> sheet_subst (CHR '']'') = CHR '')''
   \<and> (c \<notin> set ''/:*?[]'' \<and> c \<noteq> CHR 0x5C \<longrightarrow> sheet_subst c = c)"
proof -
  have "safe_sheet_name None = ''Sheet1''"
    by (simp add: safe_sheet_name_def)
  moreover have "safe_sheet_name (Some []) = ''Sheet1''"
    by (simp add: safe_sheet_name_Some)
  moreover have "s \<noteq> [] \<longrightarrow>
        safe_sheet_name (Some s) = take 31 (map sheet_subst s)
        \<and> length (safe_sheet_name (Some s)) = min 31 (length s)
        \<and> (\<forall>i < min 31 (length s). safe_sheet_name (Some s) ! i = sheet_subst (s ! i))"
    by (simp add: safe_sheet_name_Some min.commute)
  moreover have "sheet_subst (CHR ''/'') = CHR ''-'' \<and> sheet_subst (CHR '':'') = CHR ''-''
   \<and> sheet_subst (CHR 0x5C) = CHR ''-'' \<and> sheet_subst (CHR ''*'') = CHR ''-''
   \<and> sheet_subst (CHR ''?'') = CHR ''-'' \<and> sheet_subst (CHR ''['') = CHR ''(''
   \<and> sheet_subst (CHR '']'') = CHR '')''"
    by (simp add: sheet_subst_def)
  moreover have "c \<notin> set ''/:*?[]'' \<and> c \<noteq> CHR 0x5C \<longrightarrow> sheet_subst c = c"
    by (simp add: sheet_subst_def)
  ultimately show ?thesis by blast
qed

theorem safe_sheet_name_spec_witness:
  "safe_sheet_name (Some ''PM2.5/NO2: [site 12] * Baltimore? yes'')
     = ''PM2.5-NO2- (site 12) - Baltimor''
   \<and> length (safe_sheet_name (Some ''PM2.5/NO2: [site 12] * Baltimore? yes'')) = 31"
  using safe_sheet_name_spec [of "''PM2.5/NO2: [site 12] * Baltimore? yes''" "CHR ''a''"]
  by (simp add: sheet_subst_def)

subsection \<open>Pollutant labels\<close>

lemma label_at_inj: "label_at b i p = label_at b j q \<Longrightarrow> p = q"
  by (auto simp: label_at_def split: if_splits)

lemma update_fresh: "k \<notin> fst ` set al \<Longrightarrow> AList.update k v al = al @ [(k, v)]"
  by (induction al) auto

lemma label_loop_ok:
  "distinct (map fst out @ ps) \<Longrightarrow> (use_abc \<longrightarrow> i + length ps \<le> 26) \<Longrightarrow>
   label_loop use_abc i ps out
     = Inr (out @ map (\<lambda>(j, p). (p, label_at use_abc j p)) (enumerate i ps))"
proof (induction ps arbitrary: i out)
  case Nil
  then show ?case by simp
next
  case (Cons p ps)
  have new: "p \<notin> fst ` set out" using Cons.prems(1) by auto
  have d: "distinct (map fst (out @ [(p, v)]) @ ps)" for v
    using Cons.prems(1) by auto
  show ?case
  proof (cases use_abc)
    case True
    with Cons.prems(2) have i: "i < 26" "Suc i + length ps \<le> 26" by auto
    show ?thesis
      using True i Cons.IH [OF d, of "Suc i"]
      by (simp add: update_fresh [OF new] label_at_def abc_def)
  next
    case False
    then show ?thesis
      using Cons.IH [OF d, of "Suc i"]
      by (simp add: update_fresh [OF new] label_at_def)
  qed
qed

lemma label_loop_keys:
  "label_loop use_abc i ps out = Inr m \<Longrightarrow> fst ` set m = fst ` set out \<union> set ps"
proof (induction ps arbitrary: i out)
  case Nil
  then show ?case by auto
next
  case (Cons p ps)
  then show ?case
    by (auto simp: dom_update split: if_splits)
qed

lemma label_loop_total:
  "i + length ps \<le> 26 \<Longrightarrow> \<exists>m. label_loop True i ps out = Inr m"
  by (induction ps arbitrary: i out) (auto simp: abc_def)

lemma label_loop_overflow:
  "i \<le> 26 \<Longrightarrow> 26 < i + length ps \<Longrightarrow> label_loop True i ps out = Inl IndexError"
  by (induction ps arbitrary: i out) (auto simp: abc_def)

lemma sort_eq_of_set:
  fixes ps qs :: "string list"
  assumes "distinct ps" "distinct qs" "set ps = set qs"
  shows "sort ps = sort qs"
  using assms by (metis sorted_distinct_set_unique sorted_sort distinct_sort set_sort)

lemma labels_distinct:
  "distinct ps \<Longrightarrow> distinct (map (\<lambda>(j, p). label_at b j p) (enumerate i ps))"
proof (induction ps arbitrary: i)
  case Nil
  then show ?case by simp
next
  case (Cons p ps)
  have "label_at b i p \<notin> (\<lambda>(j, q). label_at b j q) ` set (enumerate (Suc i) ps)"
  proof
    assume "label_at b i p \<in> (\<lambda>(j, q). label_at b j q) ` set (enumerate (Suc i) ps)"
    then obtain j q where jq: "(j, q) \<in> set (enumerate (Suc i) ps)"
        "label_at b i p = label_at b j q"
      by auto
    then have "q \<in> set ps" by (auto simp: in_set_enumerate_eq)
    moreover have "p = q" using jq(2) by (rule label_at_inj)
    ultimately show False using Cons.prems by simp
  qed
  then show ?case using Cons by simp
qed

text \<open>
  Claim C5, as stated, asks for labels for every set of distinct pollutant names and
  either style. With letter labels the 27th name has no letter: the call raises
  \<open>IndexError\<close> and assigns nothing.
\<close>

theorem label_style_map_27_names_counterexample:
  "label_style_map
     [''P01'', ''P02'', ''P03'', ''P04'', ''P05'', ''P06'', ''P07'', ''P08'', ''P09'', ''P10'', ''P11'', ''P12'', ''P13'', ''P14'', ''P15'', ''P16'', ''P17'', ''P18'', ''P19'', ''P20'', ''P21'', ''P22'', ''P23'', ''P24'', ''P25'', ''P26'', ''P27''] True
   = Inl IndexError"
  unfolding label_style_map_def
  by (rule label_loop_overflow) simp_all

text \<open>
  Claim C5, amended. For distinct pollutant names, at most 26 of them when letter labels
  are enabled: \<^verbatim>\<open>label_style_map\<close> returns the dictionary that maps the \<open>i\<close>-th name of
  the lexicographically sorted list to \<open>Pollutant <i-th letter> (<name>)\<close> (to the name
  itself when letters are disabled), in that order; the labels are pairwise different;
  and any other listing of the same set of names gives the same dictionary.
\<close>

theorem label_style_map_deterministic:
  assumes "distinct ps" and "use_abc \<longrightarrow> length ps \<le> 26"
  shows "label_style_map ps use_abc
           = Inr (map (\<lambda>(i, p). (p, label_at use_abc i p)) (enumerate 0 (sort ps)))
         \<and> sorted (sort ps) \<and> set (sort ps) = set ps
         \<and> distinct (map (\<lambda>(i, p). label_at use_abc i p) (enumerate 0 (sort ps)))
         \<and> (\<forall>qs. distinct qs \<and> set qs = set ps
               \<longrightarrow> label_style_map qs use_abc = label_style_map ps use_abc)"
proof -
  have d: "distinct (map fst ([] :: (string \<times> string) list) @ sort ps)"
    using assms(1) by simp
  have b: "use_abc \<longrightarrow> 0 + length (sort ps) \<le> 26"
    using assms(2) by simp
  have eq: "label_style_map ps use_abc
           = Inr (map (\<lambda>(i, p). (p, label_at use_abc i p)) (enumerate 0 (sort ps)))"
    unfolding label_style_map_def using label_loop_ok [OF d b] by simp
  have dl: "distinct (map (\<lambda>(i, p). label_at use_abc i p) (enumerate 0 (sort ps)))"
    using assms(1) by (simp add: labels_distinct)
  have det: "label_style_map qs use_abc = label_style_map ps use_abc"
    if "distinct qs \<and> set qs = set ps" for qs
    using that assms(1) sort_eq_of_set [of qs ps] by (simp add: label_style_map_def)
  show ?thesis using eq dl det by simp
qed

theorem label_style_map_deterministic_witness:
  "label_style_map [''PM2.5'', ''NO2'', ''PM10''] True
     = Inr [(''NO2'', ''Pollutant A (NO2)''), (''PM10'', ''Pollutant B (PM10)''),
            (''PM2.5'', ''Pollutant C (PM2.5)'')]
   \<and> label_style_map [''PM10'', ''PM2.5'', ''NO2''] True
     = label_style_map [''PM2.5'', ''NO2'', ''PM10''] True"
proof -
  have s: "sort [''PM2.5'', ''NO2'', ''PM10''] = [''NO2'', ''PM10'', ''PM2.5'']"
    by code_simp
  have h1: "distinct [''PM2.5'', ''NO2'', ''PM10'']" by simp
  have h2: "True \<longrightarrow> length [''PM2.5'', ''NO2'', ''PM10''] \<le> 26" by simp
  have h3: "distinct [''PM10'', ''PM2.5'', ''NO2'']
      \<and> set [''PM10'', ''PM2.5'', ''NO2''] = set [''PM2.5'', ''NO2'', ''PM10'']"
    by auto
  note t = label_style_map_deterministic [OF h1 h2]
  have "label_style_map [''PM2.5'', ''NO2'', ''PM10''] True
     = Inr [(''NO2'', ''Pollutant A (NO2)''), (''PM10'', ''Pollutant B (PM10)''),
            (''PM2.5'', ''Pollutant C (PM2.5)'')]"
    using t unfolding s by (simp add: enumerate_eq_zip label_at_def abc_def)
  moreover have "label_style_map [''PM10'', ''PM2.5'', ''NO2''] True
     = label_style_map [''PM2.5'', ''NO2'', ''PM10''] True"
    using t h3 by blast
  ultimately show ?thesis by simp
qed

text \<open>
  Claim C10. With letter labels enabled, \<^verbatim>\<open>label_style_map\<close> returns a dictionary
  with a label for each name whenever it is given at most 26 names, and every call with
  27 or more names reaches the out-of-range index \<^verbatim>\<open>abc[26]\<close> and raises \<open>IndexError\<close>.
\<close>

theorem label_style_map_letters_limit:
  "(length ps \<le> 26 \<longrightarrow> (\<exists>m. label_style_map ps True = Inr m \<and> fst ` set m = set ps))
   \<and> (26 < length ps \<longrightarrow> label_style_map ps True = Inl IndexError)"
proof -
  have "\<exists>m. label_style_map ps True = Inr m \<and> fst ` set m = set ps" if "length ps \<le> 26"
  proof -
    from that obtain m where m: "label_loop True 0 (sort ps) [] = Inr m"
      using label_loop_total [of 0 "sort ps" "[]"] by auto
    then have "fst ` set m = set ps"
      using label_loop_keys [OF m] by simp
    with m show ?thesis by (auto simp: label_style_map_def)
  qed
  moreover have "label_style_map ps True = Inl IndexError" if "26 < length ps"
    using that by (simp add: label_style_map_def label_loop_overflow)
  ultimately show ?thesis by blast
qed

theorem label_style_map_letters_limit_witness:
  "(\<exists>m. label_style_map [''PM2.5'', ''NO2''] True = Inr m
        \<and> fst ` set m = set [''PM2.5'', ''NO2''])
   \<and> label_style_map
       [''S27'', ''S26'', ''S25'', ''S24'', ''S23'', ''S22'', ''S21'', ''S20'', ''S19'', ''S18'', ''S17'', ''S16'', ''S15'', ''S14'', ''S13'', ''S12'', ''S11'', ''S10'', ''S09'', ''S08'', ''S07'', ''S06'', ''S05'', ''S04'', ''S03'', ''S02'', ''S01''] True
     = Inl IndexError"
  using label_style_map_letters_limit [of "[''PM2.5'', ''NO2'']"]
    label_style_map_letters_limit
      [of "[''S27'', ''S26'', ''S25'', ''S24'', ''S23'', ''S22'', ''S21'', ''S20'', ''S19'', ''S18'', ''S17'', ''S16'', ''S15'', ''S14'', ''S13'', ''S12'', ''S11'', ''S10'', ''S09'', ''S08'', ''S07'', ''S06'', ''S05'', ''S04'', ''S03'', ''S02'', ''S01'']"]
  by simp

subsection \<open>Tables: basic facts\<close>

lemma columns_set_column:
  "columns (set_column df c vs) = (if c \<in> set (columns df) then columns df else columns df @ [c])"
  by (simp add: columns_def set_column_def update_keys)

lemma nrows_set_column [simp]: "nrows (set_column df c vs) = nrows df"
  by (simp add: set_column_def)

lemma column_set_column:
  "column (set_column df c vs) c' = (if c' = c then vs else column df c')"
  by (simp add: column_def set_column_def update_conv')

lemma cols_lengths_update:
  "list_all (\<lambda>(c, vs). length vs = n) al \<Longrightarrow> length v = n
    \<Longrightarrow> list_all (\<lambda>(c, vs). length vs = n) (AList.update k v al)"
  by (induction al) auto

lemma wf_set_column: "wf df \<Longrightarrow> length vs = nrows df \<Longrightarrow> wf (set_column df c vs)"
  unfolding wf_def columns_def set_column_def
  by (simp add: distinct_update cols_lengths_update)

lemma length_column: "wf df \<Longrightarrow> c \<in> set (columns df) \<Longrightarrow> length (column df c) = nrows df"
proof -
  assume w: "wf df" and c: "c \<in> set (columns df)"
  from c have "map_of (cols df) c \<noteq> None"
    by (simp add: columns_def map_of_eq_None_iff)
  then obtain vs where m: "map_of (cols df) c = Some vs" by blast
  then have "(c, vs) \<in> set (cols df)" by (rule map_of_SomeD)
  with m show ?thesis using w by (auto simp: wf_def column_def list_all_iff)
qed

lemma nrows_select [simp]: "nrows (select df names) = nrows df"
  by (simp add: select_def)

lemma columns_select [simp]: "columns (select df names) = names"
  by (simp add: select_def columns_def comp_def)

lemma map_of_tabulate:
  "map_of (map (\<lambda>c. (c, f c)) names) c = (if c \<in> set names then Some (f c) else None)"
  by (induction names) auto

lemma column_select: "c \<in> set names \<Longrightarrow> column (select df names) c = column df c"
  by (simp add: column_def select_def map_of_tabulate)

lemma set_column_same: "c \<in> set (columns df) \<Longrightarrow> set_column df c (column df c) = df"
proof -
  assume "c \<in> set (columns df)"
  then have "map_of (cols df) c \<noteq> None"
    by (simp add: columns_def map_of_eq_None_iff)
  then obtain vs where m: "map_of (cols df) c = Some vs" by blast
  then have "AList.update c (column df c) (cols df) = cols df"
    by (simp add: column_def update_triv)
  then show ?thesis by (simp add: set_column_def)
qed

lemma select_select: "select (select df names) names = select df names"
proof -
  have "map (\<lambda>c. (c, column (select df names) c)) names = map (\<lambda>c. (c, column df c)) names"
    by (simp add: column_select)
  then show ?thesis by (simp add: select_def)
qed

lemma wf_select:
  assumes "wf df" "distinct names" "set names \<subseteq> set (columns df)"
  shows "wf (select df names)"
proof -
  have "length (column df c) = nrows df" if "c \<in> set names" for c
    using that assms(1,3) by (auto intro: length_column)
  then have "list_all (\<lambda>(c, vs). length vs = nrows df) (map (\<lambda>c. (c, column df c)) names)"
    by (simp add: list_all_iff)
  then show ?thesis using assms(2) by (simp add: wf_def select_def columns_def comp_def)
qed

lemma wf_air_rows: "wf air_rows"
  by (simp add: wf_def columns_def air_rows_def)

lemma wf_air_long: "wf air_long"
  by (simp add: wf_def columns_def air_long_def)

subsection \<open>The long projection\<close>

lemma round_half_even_of_int [simp]: "round_half_even (of_int n) = n"
  by (simp add: round_half_even_def)

lemma decimal_round3_idem [simp]: "decimal_round3 (decimal_round3 r) = decimal_round3 r"
  by (simp add: decimal_round3_def)

lemma stable_csv_coercions: "stable_coercions csv_coercions"
  by (simp add: stable_coercions_def csv_coercions_def)

lemma date_of_idem: "stable_coercions P \<Longrightarrow> date_of P (date_of P x) = date_of P x"
  by (auto simp: stable_coercions_def date_of_def split: option.splits)

lemma numeric3_idem: "stable_coercions P \<Longrightarrow> numeric3 P (numeric3 P x) = numeric3 P x"
  by (auto simp: stable_coercions_def numeric3_def split: option.splits)

lemma pick_first_sub: "set (opt_list (pick_first df L)) \<subseteq> set (columns df)"
  by (induction L) (auto simp: opt_list_def)

lemma pick_first_cands: "set (opt_list (pick_first df L)) \<subseteq> set L"
  by (induction L) (auto simp: opt_list_def)

lemma pick_first_cong:
  "set (columns A) \<subseteq> set (columns B) \<Longrightarrow> set (opt_list (pick_first B L)) \<subseteq> set (columns A)
     \<Longrightarrow> pick_first A L = pick_first B L"
  by (induction L) (auto simp: opt_list_def)

lemma append_groups_cong:
  "(\<forall>c \<in> set G. c \<in> set (columns A) \<longleftrightarrow> c \<in> set (columns B))
     \<Longrightarrow> append_groups A ord G = append_groups B ord G"
  by (induction G arbitrary: ord) auto

lemma append_groups_prefix: "set ord \<subseteq> set (append_groups df ord G)"
proof (induction G arbitrary: ord)
  case Nil
  then show ?case by simp
next
  case (Cons g G)
  have "set ord \<subseteq> set (ord @ [g])" by auto
  also have "\<dots> \<subseteq> set (append_groups df (ord @ [g]) G)" by (rule Cons.IH)
  finally show ?case using Cons.IH [of ord] by simp
qed

lemma append_groups_has:
  "c \<in> set G \<Longrightarrow> c \<in> set (columns df) \<Longrightarrow> c \<in> set (append_groups df ord G)"
proof (induction G arbitrary: ord)
  case Nil
  then show ?case by simp
next
  case (Cons g G)
  show ?case
  proof (cases "c = g")
    case True
    then show ?thesis
      using Cons.prems(2) append_groups_prefix [of "ord @ [g]" df G]
        append_groups_prefix [of ord df G]
      by auto
  next
    case False
    then show ?thesis using Cons by auto
  qed
qed

lemma append_groups_subset:
  "set ord \<subseteq> set (columns df) \<Longrightarrow> set (append_groups df ord G) \<subseteq> set (columns df)"
  by (induction G arbitrary: ord) auto

lemma append_groups_distinct: "distinct ord \<Longrightarrow> distinct (append_groups df ord G)"
  by (induction G arbitrary: ord) auto

lemma LONG_disjoint:
  "set LONG_sample_id \<inter> set LONG_pollutant_name = {}"
  "set LONG_sample_id \<inter> set LONG_sample_duration = {}"
  "set LONG_pollutant_name \<inter> set LONG_sample_duration = {}"
  "''Date'' \<notin> set LONG_sample_id" "''Date'' \<notin> set LONG_pollutant_name"
  "''Date'' \<notin> set LONG_sample_duration"
  by (simp_all add: LONG_sample_id_def LONG_pollutant_name_def LONG_sample_duration_def)

lemma ordered0_distinct:
  assumes "value_col \<noteq> ''Date''"
    and "value_col \<notin> set (LONG_sample_id @ LONG_pollutant_name @ LONG_sample_duration)"
  shows "distinct (opt_list (pick_first df1 LONG_sample_id)
        @ opt_list (pick_first df1 LONG_pollutant_name)
        @ opt_list (pick_first df1 LONG_sample_duration) @ [''Date'', value_col])"
proof -
  have a: "set (opt_list (pick_first df1 LONG_sample_id)) \<subseteq> set LONG_sample_id"
    and b: "set (opt_list (pick_first df1 LONG_pollutant_name)) \<subseteq> set LONG_pollutant_name"
    and c: "set (opt_list (pick_first df1 LONG_sample_duration)) \<subseteq> set LONG_sample_duration"
    by (rule pick_first_cands)+
  have d: "distinct (opt_list x)" for x by (simp add: opt_list_def split: option.splits)
  have v: "value_col \<notin> set LONG_sample_id" "value_col \<notin> set LONG_pollutant_name"
    "value_col \<notin> set LONG_sample_duration"
    using assms(2) by simp_all
  show ?thesis
    using a b c d v assms(1) LONG_disjoint
    by (simp only: distinct_append distinct.simps set_simps set_append) blast
qed

text \<open>
  Claim C6. For a table with distinct, full columns and a date and a value column taken
  from it, \<^verbatim>\<open>make_long_df\<close> returns a table over exactly as many rows as the input, each
  of its columns filled for every row; the columns other than \<open>Date\<close> and the value
  column are those of the input, cell by cell. Nothing is filtered or deduplicated.
\<close>

theorem make_long_df_row_count:
  assumes "wf df" "date_col \<in> set (columns df)" "value_col \<in> set (columns df)"
  shows "\<exists>out. make_long_df P df date_col value_col group_cols = Inr out
           \<and> nrows out = nrows df
           \<and> list_all (\<lambda>(c, vs). length vs = nrows df) (cols out)
           \<and> (\<forall>c \<in> set (columns out). c \<noteq> ''Date'' \<and> c \<noteq> value_col
                 \<longrightarrow> column out c = column df c)"
proof -
  define df1 where "df1 = set_column df ''Date'' (map (date_of P) (column df date_col))"
  define df2 where "df2 = set_column df1 value_col (map (numeric3 P) (column df1 value_col))"
  have w1: "wf df1"
    unfolding df1_def using assms by (simp add: wf_set_column length_column)
  have v1: "value_col \<in> set (columns df1)"
    unfolding df1_def using assms(3) by (simp add: columns_set_column)
  have w2: "wf df2"
    unfolding df2_def using w1 v1 by (simp add: wf_set_column length_column)
  have n2: "nrows df2 = nrows df" by (simp add: df2_def df1_def)
  define ordered where "ordered = filter (\<lambda>c. c \<in> set (columns df2))
     (append_groups df2 (opt_list (pick_first df1 LONG_sample_id)
        @ opt_list (pick_first df1 LONG_pollutant_name)
        @ opt_list (pick_first df1 LONG_sample_duration) @ [''Date'', value_col]) group_cols)"
  have out: "make_long_df P df date_col value_col group_cols = Inr (select df2 ordered)"
    using assms(2) v1
    unfolding make_long_df_def Let_def df1_def [symmetric] df2_def [symmetric] ordered_def
    by simp
  have sub: "set ordered \<subseteq> set (columns df2)"
    by (auto simp: ordered_def)
  have len: "list_all (\<lambda>(c, vs). length vs = nrows df) (cols (select df2 ordered))"
    using sub w2 n2 by (auto simp: select_def list_all_iff length_column)
  have same: "column (select df2 ordered) c = column df c"
    if "c \<in> set (columns (select df2 ordered))" "c \<noteq> ''Date'' \<and> c \<noteq> value_col" for c
    using that by (simp add: column_select df2_def df1_def column_set_column)
  show ?thesis using out n2 len same by simp
qed

theorem make_long_df_row_count_witness:
  "\<exists>out. make_long_df csv_coercions air_rows ''Date Local'' ''Arithmetic Mean'' [''State Name'']
            = Inr out
         \<and> nrows out = 4 \<and> nrows air_rows = 4"
proof -
  have h2: "''Date Local'' \<in> set (columns air_rows)"
    and h3: "''Arithmetic Mean'' \<in> set (columns air_rows)"
    by (simp_all add: columns_def air_rows_def)
  have n: "nrows air_rows = 4" by (simp add: air_rows_def)
  show ?thesis
    using make_long_df_row_count [OF wf_air_rows h2 h3, of csv_coercions "[''State Name'']"]
    unfolding n by auto
qed

text \<open>
  Claim C7, as stated, fails whenever the date column is not called \<open>Date\<close> and is not
  kept for another reason: the projection writes the dates to a column \<open>Date\<close> and
  leaves the original date column out, so the second projection with the same
  arguments raises \<open>KeyError\<close>. Here \<open>air_rows\<close> projects to \<open>air_long\<close>, which has no
  \<open>Date Local\<close>.
\<close>

theorem make_long_df_twice_counterexample:
  "make_long_df csv_coercions air_rows ''Date Local'' ''Arithmetic Mean'' [''State Name'']
     = Inr air_long
   \<and> make_long_df csv_coercions air_long ''Date Local'' ''Arithmetic Mean'' [''State Name'']
     = Inl (KeyError ''Date Local'')"
proof -
  have "make_long_df csv_coercions air_rows ''Date Local'' ''Arithmetic Mean'' [''State Name'']
     = Inr air_long"
    by code_simp
  moreover have
    "make_long_df csv_coercions air_long ''Date Local'' ''Arithmetic Mean'' [''State Name'']
     = Inl (KeyError ''Date Local'')"
    by (simp add: make_long_df_def columns_def air_long_def)
  ultimately show ?thesis by simp
qed

text \<open>
  Claim C7, amended. For a table with distinct, full columns, a date and a value column
  taken from it, the value column being different from the date column, from \<open>Date\<close>
  and from the optional base columns, and conversions that leave converted cells as
  they are: \<^verbatim>\<open>make_long_df\<close> returns a table with distinct, full columns; the date
  column is a column of that output whenever it is \<open>Date\<close> or one of the grouping
  columns; when the date column is a column of the output, \<^verbatim>\<open>make_long_df\<close> applied
  with the same arguments to the output returns the output unchanged; and when it is
  not, that second call raises \<open>KeyError\<close>.
\<close>

theorem make_long_df_idempotent:
  assumes w: "wf df" and d: "date_col \<in> set (columns df)" and v: "value_col \<in> set (columns df)"
    and vd: "value_col \<noteq> ''Date''" and vdc: "value_col \<noteq> date_col"
    and vb: "value_col \<notin> set (LONG_sample_id @ LONG_pollutant_name @ LONG_sample_duration)"
    and st: "stable_coercions P"
  shows "\<exists>out. make_long_df P df date_col value_col group_cols = Inr out \<and> wf out
           \<and> (date_col = ''Date'' \<or> date_col \<in> set group_cols
                 \<longrightarrow> date_col \<in> set (columns out))
           \<and> (date_col \<in> set (columns out)
                 \<longrightarrow> make_long_df P out date_col value_col group_cols = Inr out)
           \<and> (date_col \<notin> set (columns out)
                 \<longrightarrow> make_long_df P out date_col value_col group_cols
                       = Inl (KeyError date_col))"
proof -
  define df1 where "df1 = set_column df ''Date'' (map (date_of P) (column df date_col))"
  define df2 where "df2 = set_column df1 value_col (map (numeric3 P) (column df1 value_col))"
  define ordered0 where "ordered0 = opt_list (pick_first df1 LONG_sample_id)
        @ opt_list (pick_first df1 LONG_pollutant_name)
        @ opt_list (pick_first df1 LONG_sample_duration) @ [''Date'', value_col]"
  define ordered1 where "ordered1 = append_groups df2 ordered0 group_cols"
  define out where "out = select df2 ordered1"
  have c1: "set (columns df1) = insert ''Date'' (set (columns df))"
    by (auto simp: df1_def columns_set_column)
  have v1: "value_col \<in> set (columns df1)" using v c1 by simp
  have c2: "columns df2 = columns df1"
    using v1 by (simp add: df2_def columns_set_column)
  have w1: "wf df1"
    unfolding df1_def using w d by (simp add: wf_set_column length_column)
  have w2: "wf df2"
    unfolding df2_def using w1 v1 by (simp add: wf_set_column length_column)
  have o0: "set ordered0 \<subseteq> set (columns df2)"
    using v1 c1 c2 pick_first_sub [of df1] by (auto simp: ordered0_def)
  have o1: "set ordered1 \<subseteq> set (columns df2)"
    unfolding ordered1_def using o0 by (rule append_groups_subset)
  have d1: "distinct ordered1"
    unfolding ordered1_def ordered0_def
    by (rule append_groups_distinct, rule ordered0_distinct [OF vd vb])
  have wo: "wf out"
    unfolding out_def using w2 d1 o1 by (rule wf_select)
  have f1: "filter (\<lambda>c. c \<in> set (columns df2)) ordered1 = ordered1"
    using o1 by (auto simp: filter_id_conv)
  have first: "make_long_df P df date_col value_col group_cols = Inr out"
    using d v1
    unfolding make_long_df_def Let_def df1_def [symmetric] df2_def [symmetric]
      ordered0_def [symmetric] ordered1_def [symmetric] f1 out_def
    by simp
  have co: "columns out = ordered1" by (simp add: out_def)
  have din: "''Date'' \<in> set ordered1" "value_col \<in> set ordered1"
    using append_groups_prefix [of ordered0 df2 group_cols]
    by (auto simp: ordered1_def ordered0_def)
  have kept: "date_col \<in> set (columns out)"
    if "date_col = ''Date'' \<or> date_col \<in> set group_cols"
  proof (cases "date_col = ''Date''")
    case True
    then show ?thesis using din co by simp
  next
    case False
    with that have "date_col \<in> set group_cols" by simp
    moreover have "date_col \<in> set (columns df2)" using d c1 c2 by simp
    ultimately show ?thesis
      unfolding co ordered1_def by (rule append_groups_has)
  qed
  have second: "make_long_df P out date_col value_col group_cols = Inr out"
    if din_d: "date_col \<in> set (columns out)"
  proof -
    have cd: "column out ''Date'' = map (date_of P) (column df date_col)"
      using din vd by (simp add: out_def column_select df2_def df1_def column_set_column)
    have cdd: "map (date_of P) (column out date_col) = column out ''Date''"
    proof (cases "date_col = ''Date''")
      case True
      then show ?thesis using cd st by (simp add: date_of_idem)
    next
      case False
      then have "column out date_col = column df date_col"
        using din_d co vdc
        by (simp add: out_def column_select df2_def df1_def column_set_column)
      then show ?thesis using cd by simp
    qed
    have cv: "column out value_col = map (numeric3 P) (column df1 value_col)"
      using din by (simp add: out_def column_select df2_def column_set_column)
    have s1: "set_column out ''Date'' (map (date_of P) (column out date_col)) = out"
      unfolding cdd using din co by (simp add: set_column_same)
    have s2: "set_column out value_col (map (numeric3 P) (column out value_col)) = out"
    proof -
      have "map (numeric3 P) (column out value_col) = column out value_col"
        unfolding cv using st by (simp add: numeric3_idem)
      then show ?thesis using din co by (simp add: set_column_same)
    qed
    have sub: "set (columns out) \<subseteq> set (columns df1)"
      using o1 co c2 by simp
    have pk: "pick_first out L = pick_first df1 L"
      if "set (opt_list (pick_first df1 L)) \<subseteq> set ordered0" for L
    proof (rule pick_first_cong [OF sub])
      show "set (opt_list (pick_first df1 L)) \<subseteq> set (columns out)"
        using that append_groups_prefix [of ordered0 df2 group_cols] co
        by (auto simp: ordered1_def)
    qed
    have p1: "pick_first out LONG_sample_id = pick_first df1 LONG_sample_id"
      by (rule pk) (auto simp: ordered0_def)
    have p2: "pick_first out LONG_pollutant_name = pick_first df1 LONG_pollutant_name"
      by (rule pk) (auto simp: ordered0_def)
    have p3: "pick_first out LONG_sample_duration = pick_first df1 LONG_sample_duration"
      by (rule pk) (auto simp: ordered0_def)
    have ag: "append_groups out ordered0 group_cols = ordered1"
      unfolding ordered1_def
    proof (rule append_groups_cong, rule ballI)
      fix c assume c: "c \<in> set group_cols"
      show "c \<in> set (columns out) \<longleftrightarrow> c \<in> set (columns df2)"
        using o1 c co append_groups_has [of c group_cols df2 ordered0]
        by (auto simp: ordered1_def)
    qed
    have f2: "filter (\<lambda>c. c \<in> set (columns out)) ordered1 = ordered1"
      by (simp add: co)
    have sel: "select out ordered1 = out"
      unfolding out_def by (rule select_select)
    show ?thesis
      using din din_d co
      unfolding make_long_df_def Let_def s1 s2 p1 p2 p3 ordered0_def [symmetric] ag f2 sel
      by simp
  qed
  have third: "make_long_df P out date_col value_col group_cols = Inl (KeyError date_col)"
    if "date_col \<notin> set (columns out)"
    using that by (simp add: make_long_df_def)
  show ?thesis using first wo kept second third by blast
qed

theorem make_long_df_idempotent_witness:
  "make_long_df csv_coercions air_rows ''Date Local'' ''Arithmetic Mean''
       [''Date Local'', ''State Name'']
     = Inr \<lparr>nrows = 4,
            cols = [(''Pollutant Name'', [Str ''NO2'', Str ''PM2.5'', Str ''NO2'', Str ''PM10'']),
                    (''Date'', [Date 2025 1 10, Date 2025 1 10, Date 2025 1 10, Date 2025 1 11]),
                    (''Arithmetic Mean'', [Num (152 / 10), Num (981 / 100), Num 16, NaN]),
                    (''Date Local'', [Str ''2025-01-10'', Str ''2025-01-10'', Str ''2025-01-10'',
                                       Str ''2025-01-11'']),
                    (''State Name'',
                     [Str ''Maryland'', Str ''Maryland'', Str ''Maryland'', NaN])]\<rparr>
   \<and> make_long_df csv_coercions
         \<lparr>nrows = 4,
            cols = [(''Pollutant Name'', [Str ''NO2'', Str ''PM2.5'', Str ''NO2'', Str ''PM10'']),
                    (''Date'', [Date 2025 1 10, Date 2025 1 10, Date 2025 1 10, Date 2025 1 11]),
                    (''Arithmetic Mean'', [Num (152 / 10), Num (981 / 100), Num 16, NaN]),
                    (''Date Local'', [Str ''2025-01-10'', Str ''2025-01-10'', Str ''2025-01-10'',
                                       Str ''2025-01-11'']),
                    (''State Name'',
                     [Str ''Maryland'', Str ''Maryland'', Str ''Maryland'', NaN])]\<rparr>
         ''Date Local'' ''Arithmetic Mean'' [''Date Local'', ''State Name'']
     = make_long_df csv_coercions air_rows ''Date Local'' ''Arithmetic Mean''
         [''Date Local'', ''State Name'']"
proof -
  let ?X = "\<lparr>nrows = 4,
            cols = [(''Pollutant Name'', [Str ''NO2'', Str ''PM2.5'', Str ''NO2'', Str ''PM10'']),
                    (''Date'', [Date 2025 1 10, Date 2025 1 10, Date 2025 1 10, Date 2025 1 11]),
                    (''Arithmetic Mean'', [Num (152 / 10), Num (981 / 100), Num 16, NaN]),
                    (''Date Local'', [Str ''2025-01-10'', Str ''2025-01-10'', Str ''2025-01-10'',
                                       Str ''2025-01-11'']),
                    (''State Name'',
                     [Str ''Maryland'', Str ''Maryland'', Str ''Maryland'', NaN])]\<rparr>"
  have run: "make_long_df csv_coercions air_rows ''Date Local'' ''Arithmetic Mean''
               [''Date Local'', ''State Name''] = Inr ?X"
    by code_simp
  have d: "''Date Local'' \<in> set (columns air_rows)"
    and v: "''Arithmetic Mean'' \<in> set (columns air_rows)"
    by (simp_all add: columns_def air_rows_def)
  have vd: "''Arithmetic Mean'' \<noteq> ''Date''" and vdc: "''Arithmetic Mean'' \<noteq> ''Date Local''"
    by simp_all
  have vb: "''Arithmetic Mean''
      \<notin> set (LONG_sample_id @ LONG_pollutant_name @ LONG_sample_duration)"
    by (simp add: LONG_sample_id_def LONG_pollutant_name_def LONG_sample_duration_def)
  from make_long_df_idempotent [OF wf_air_rows d v vd vdc vb stable_csv_coercions,
      of "[''Date Local'', ''State Name'']"]
  obtain out where o: "make_long_df csv_coercions air_rows ''Date Local'' ''Arithmetic Mean''
               [''Date Local'', ''State Name''] = Inr out"
    and k: "''Date Local'' \<in> set (columns out)
            \<longrightarrow> make_long_df csv_coercions out ''Date Local'' ''Arithmetic Mean''
                  [''Date Local'', ''State Name''] = Inr out"
    by blast
  have x: "out = ?X" using o run by simp
  have "''Date Local'' \<in> set (columns ?X)" by (simp add: columns_def)
  then show ?thesis using k run unfolding x by simp
qed

subsection \<open>The grouping configurator\<close>

lemma coalesce_in: "coalesce df L = Some c \<Longrightarrow> c \<in> set (columns df)"
  by (induction L) (auto split: if_splits)

lemma detect_date_col_in: "detect_date_col io df = Inr d \<Longrightarrow> d \<in> set (columns df)"
  by (auto simp: detect_date_col_def split: option.splits if_splits dest: coalesce_in)

lemma detect_date_col_err: "detect_date_col io df = Inl e \<Longrightarrow> e = DateColumnNotFound"
  by (auto simp: detect_date_col_def split: option.splits if_splits)

lemma detect_val_col_err: "detect_val_col io df = Inl e \<Longrightarrow> e = ValueColumnNotFound"
  by (auto simp: detect_val_col_def split: option.splits if_splits)

lemma resolve_group_cols_err: "resolve_group_cols io df = Inl e \<Longrightarrow> e \<noteq> DateColumnNotFound"
  by (auto simp: resolve_group_cols_def Let_def split: option.splits if_splits prod.splits)

text \<open>
  Claim C8, as stated, fails for every error but the first: \<^verbatim>\<open>ensure_date\<close> has
  already overwritten the date column of the caller's table when the value column is
  looked for. Here the table has a \<open>Date\<close> column and no \<open>Arithmetic Mean\<close>, the user
  cancels the dialog, and the call raises \<open>Value column not found.\<close> on a table whose
  date text has become a date.
\<close>

theorem choose_grouping_error_after_normalizing_counterexample:
  "snd (choose_grouping csv_coercions no_answers dates_only) = Inl ValueColumnNotFound
   \<and> fst (choose_grouping csv_coercions no_answers dates_only)
       = \<lparr>nrows = 1, cols = [(''Date'', [Date 2025 1 10]), (''State'', [Str ''Maryland''])]\<rparr>
   \<and> fst (choose_grouping csv_coercions no_answers dates_only) \<noteq> dates_only"
proof -
  have "choose_grouping csv_coercions no_answers dates_only
      = (\<lparr>nrows = 1, cols = [(''Date'', [Date 2025 1 10]), (''State'', [Str ''Maryland''])]\<rparr>,
         Inl ValueColumnNotFound)"
    by code_simp
  then show ?thesis by (simp add: dates_only_def)
qed

text \<open>
  Claim C8, amended. When \<^verbatim>\<open>choose_grouping\<close> fails, either the error is the missing
  date column and the table is exactly as it was passed in, or the error is another
  one and the table is the input with its date column normalized in place: the row
  count, the column names and every other column are as passed in.
\<close>

theorem choose_grouping_failure_state:
  assumes "snd (choose_grouping P io df) = Inl e"
  shows "(e = DateColumnNotFound \<and> fst (choose_grouping P io df) = df)
       \<or> (e \<noteq> DateColumnNotFound
           \<and> (\<exists>d. detect_date_col io df = Inr d
                 \<and> fst (choose_grouping P io df) = ensure_date P df d
                 \<and> nrows (ensure_date P df d) = nrows df
                 \<and> columns (ensure_date P df d) = columns df
                 \<and> (\<forall>c. c \<noteq> d \<longrightarrow> column (ensure_date P df d) c = column df c)))"
proof (cases "detect_date_col io df")
  case (Inl e')
  then show ?thesis
    using assms detect_date_col_err [OF Inl] by (simp add: choose_grouping_def)
next
  case (Inr d)
  have din: "d \<in> set (columns df)" using Inr by (rule detect_date_col_in)
  have st: "fst (choose_grouping P io df) = ensure_date P df d"
    using Inr by (simp add: choose_grouping_def Let_def split: sum.splits)
  have ne: "e \<noteq> DateColumnNotFound"
    using assms Inr detect_val_col_err [of io "ensure_date P df d"]
      resolve_group_cols_err [of io "ensure_date P df d"]
    by (auto simp: choose_grouping_def Let_def split: sum.splits)
  have "nrows (ensure_date P df d) = nrows df"
       "columns (ensure_date P df d) = columns df"
       "\<forall>c. c \<noteq> d \<longrightarrow> column (ensure_date P df d) c = column df c"
    using din by (simp_all add: ensure_date_def columns_set_column column_set_column)
  then show ?thesis using Inr st ne by simp
qed

theorem choose_grouping_failure_state_witness:
  "snd (choose_grouping csv_coercions (no_answers\<lparr>grouping_answer := Some ''planet''\<rparr>) air_rows)
     = Inl InvalidGroupingChoice
   \<and> fst (choose_grouping csv_coercions (no_answers\<lparr>grouping_answer := Some ''planet''\<rparr>) air_rows)
     = ensure_date csv_coercions air_rows ''Date Local''"
proof -
  have e: "snd (choose_grouping csv_coercions (no_answers\<lparr>grouping_answer := Some ''planet''\<rparr>)
              air_rows) = Inl InvalidGroupingChoice"
    by code_simp
  have d: "detect_date_col (no_answers\<lparr>grouping_answer := Some ''planet''\<rparr>) air_rows
             = Inr ''Date Local''"
    by code_simp
  show ?thesis
    using choose_grouping_failure_state [OF e] e d by auto
qed

text \<open>
  Claim C9. When the date and value columns are found and the user chooses \<open>custom\<close>
  and types a non-empty list, \<^verbatim>\<open>choose_grouping\<close> raises an error that carries every
  typed name that is not a column of the table, in the order typed, as soon as there
  is one; when all typed names are columns, the typed list itself, in its order,
  becomes the grouping columns.
\<close>

theorem custom_grouping_lists_all_missing:
  assumes "detect_date_col io df = Inr d"
    and "detect_val_col io (ensure_date P df d) = Inr v"
    and "ask_choice (grouping_answer io)
           [''state'', ''city'', ''county'', ''site'', ''cbsa'', ''coordinates'', ''custom'']
         = Some ''custom''"
    and "custom_answer io = Some typed" and "typed \<noteq> []"
  shows "snd (choose_grouping P io df) =
           (if filter (\<lambda>c. c \<notin> set (columns df)) (custom_parts typed) = []
            then Inr (d, v, custom_parts typed)
            else Inl (ColumnsNotFound (filter (\<lambda>c. c \<notin> set (columns df)) (custom_parts typed))))"
proof -
  have din: "d \<in> set (columns df)" using assms(1) by (rule detect_date_col_in)
  then have c: "columns (ensure_date P df d) = columns df"
    by (simp add: ensure_date_def columns_set_column)
  have "resolve_group_cols io (ensure_date P df d) =
           (if filter (\<lambda>c. c \<notin> set (columns df)) (custom_parts typed) = []
            then Inr (custom_parts typed)
            else Inl (ColumnsNotFound (filter (\<lambda>c. c \<notin> set (columns df)) (custom_parts typed))))"
    using assms(3,4,5) by (simp add: resolve_group_cols_def Let_def c)
  then show ?thesis
    using assms(1,2) by (simp add: choose_grouping_def Let_def)
qed

theorem custom_grouping_lists_all_missing_witness:
  "snd (choose_grouping csv_coercions
          (no_answers\<lparr>grouping_answer := Some '' Custom '',
                       custom_answer := Some ''State Name, Site Num ,,County''\<rparr>) air_rows)
     = Inl (ColumnsNotFound [''Site Num'', ''County''])
   \<and> snd (choose_grouping csv_coercions
          (no_answers\<lparr>grouping_answer := Some ''custom'',
                       custom_answer := Some ''Pollutant Name,State Name''\<rparr>) air_rows)
     = Inr (''Date Local'', ''Arithmetic Mean'', [''Pollutant Name'', ''State Name''])"
proof -
  let ?io1 = "no_answers\<lparr>grouping_answer := Some '' Custom '',
                       custom_answer := Some ''State Name, Site Num ,,County''\<rparr>"
  let ?io2 = "no_answers\<lparr>grouping_answer := Some ''custom'',
                       custom_answer := Some ''Pollutant Name,State Name''\<rparr>"
  let ?choices = "[''state'', ''city'', ''county'', ''site'', ''cbsa'', ''coordinates'', ''custom'']"
  have d1: "detect_date_col ?io1 air_rows = Inr ''Date Local''" by code_simp
  have v1: "detect_val_col ?io1 (ensure_date csv_coercions air_rows ''Date Local'')
              = Inr ''Arithmetic Mean''" by code_simp
  have a1: "ask_choice (grouping_answer ?io1) ?choices = Some ''custom''" by code_simp
  have c1: "custom_answer ?io1 = Some ''State Name, Site Num ,,County''"
    by (simp add: no_answers_def)
  have r1: "filter (\<lambda>c. c \<notin> set (columns air_rows)) (custom_parts ''State Name, Site Num ,,County'')
              = [''Site Num'', ''County'']" by code_simp
  have d2: "detect_date_col ?io2 air_rows = Inr ''Date Local''" by code_simp
  have v2: "detect_val_col ?io2 (ensure_date csv_coercions air_rows ''Date Local'')
              = Inr ''Arithmetic Mean''" by code_simp
  have a2: "ask_choice (grouping_answer ?io2) ?choices = Some ''custom''" by code_simp
  have c2: "custom_answer ?io2 = Some ''Pollutant Name,State Name''"
    by (simp add: no_answers_def)
  have r2: "filter (\<lambda>c. c \<notin> set (columns air_rows)) (custom_parts ''Pollutant Name,State Name'')
              = []" by code_simp
  have p2: "custom_parts ''Pollutant Name,State Name'' = [''Pollutant Name'', ''State Name'']"
    by code_simp
  have n1: "''State Name, Site Num ,,County'' \<noteq> []"
    and n2: "''Pollutant Name,State Name'' \<noteq> []" by simp_all
  have t1: "snd (choose_grouping csv_coercions ?io1 air_rows)
              = Inl (ColumnsNotFound [''Site Num'', ''County''])"
    using custom_grouping_lists_all_missing [OF d1 v1 a1 c1 n1] unfolding r1 by simp
  have t2: "snd (choose_grouping csv_coercions ?io2 air_rows)
              = Inr (''Date Local'', ''Arithmetic Mean'', [''Pollutant Name'', ''State Name''])"
    using custom_grouping_lists_all_missing [OF d2 v2 a2 c2 n2, unfolded r2] by (simp add: p2)
  show ?thesis using t1 t2 by simp
qed


subsection \<open>Grouping\<close>

lemma column_take_rows:
  "column (take_rows df idxs) c
     = (case map_of (cols df) c of
          Some vs \<Rightarrow> map (\<lambda>i. if i < length vs then vs ! i else NaN) idxs
        | None \<Rightarrow> [])"
  by (simp add: column_def take_rows_def map_of_map split: option.splits)

lemma cell_at_take_rows:
  "j < length idxs \<Longrightarrow> cell_at (take_rows df idxs) c j = cell_at df c (idxs ! j)"
proof (cases "map_of (cols df) c")
  case None
  then show ?thesis
    by (simp add: cell_at_def column_take_rows) (simp add: column_def)
next
  case (Some vs)
  then have "column df c = vs" by (simp add: column_def)
  moreover assume "j < length idxs"
  ultimately show ?thesis
    using Some by (simp add: cell_at_def column_take_rows)
qed

lemma row_key_take_rows:
  "j < length idxs \<Longrightarrow> row_key (take_rows df idxs) names j = row_key df names (idxs ! j)"
  by (simp add: row_key_def cell_at_take_rows)

lemma nrows_take_rows [simp]: "nrows (take_rows df idxs) = length idxs"
  by (simp add: take_rows_def)

lemma columns_take_rows [simp]: "columns (take_rows df idxs) = columns df"
  by (simp add: take_rows_def columns_def comp_def case_prod_unfold)

text \<open>What \<^verbatim>\<open>groupby\<close> returns, when the grouping columns exist.\<close>

lemma groupby_Inr:
  assumes "groupby df names = Inr groups"
  shows "groups = map (\<lambda>k. (k, take_rows df
                  (filter (\<lambda>i. row_key df names i = k)
                     (filter (\<lambda>i. NaN \<notin> set (row_key df names i)) [0..<nrows df]))))
            (sort_key (map cell_rank) (remdups (map (row_key df names)
               (filter (\<lambda>i. NaN \<notin> set (row_key df names i)) [0..<nrows df]))))"
  using assms by (auto simp: groupby_def Let_def split: option.splits)


lemma groupby_group:
  assumes "groupby df names = Inr groups" and "(k, sub) \<in> set groups"
  shows "NaN \<notin> set k
       \<and> (\<exists>i < nrows df. row_key df names i = k)
       \<and> sub = take_rows df (filter (\<lambda>i. row_key df names i = k)
                 (filter (\<lambda>i. NaN \<notin> set (row_key df names i)) [0..<nrows df]))"
  using assms(2) unfolding groupby_Inr [OF assms(1)] by auto

lemma count_by_key:
  "distinct ks \<Longrightarrow> f ` set xs \<subseteq> set ks
     \<Longrightarrow> sum_list (map (\<lambda>k. length (filter (\<lambda>x. f x = k) xs)) ks) = length xs"
proof (induction xs)
  case Nil
  then show ?case by simp
next
  case (Cons x xs)
  have one: "sum_list (map (\<lambda>k. if f x = k then 1 else 0) ks) = (1::nat)"
    using Cons.prems by (simp add: sum_list_distinct_conv_sum_set)
  have "sum_list (map (\<lambda>k. length (filter (\<lambda>y. f y = k) (x # xs))) ks)
      = sum_list (map (\<lambda>k. (if f x = k then 1 else 0) + length (filter (\<lambda>y. f y = k) xs)) ks)"
    by (rule arg_cong [where f = sum_list]) auto
  also have "\<dots> = sum_list (map (\<lambda>k. if f x = k then 1 else 0) ks)
                 + sum_list (map (\<lambda>k. length (filter (\<lambda>y. f y = k) xs)) ks)"
    by (simp add: sum_list_addf)
  also have "\<dots> = 1 + length xs"
    using one Cons by simp
  finally show ?case by simp
qed

text \<open>
  The sub-tables of \<^verbatim>\<open>groupby\<close> hold, between them, exactly the rows whose grouping
  values are all present.
\<close>

lemma groupby_row_counts:
  assumes "groupby df names = Inr groups"
  shows "sum_list (map (\<lambda>(k, sub). nrows sub) groups)
           = length (filter (\<lambda>i. NaN \<notin> set (row_key df names i)) [0..<nrows df])"
proof -
  define kept where "kept = filter (\<lambda>i. NaN \<notin> set (row_key df names i)) [0..<nrows df]"
  define keys where "keys = sort_key (map cell_rank) (remdups (map (row_key df names) kept))"
  have d: "distinct keys" by (simp add: keys_def)
  have s: "row_key df names ` set kept \<subseteq> set keys" by (simp add: keys_def)
  have "sum_list (map (\<lambda>(k, sub). nrows sub) groups)
      = sum_list (map (\<lambda>k. length (filter (\<lambda>i. row_key df names i = k) kept)) keys)"
    unfolding groupby_Inr [OF assms] kept_def [symmetric] keys_def [symmetric]
    by (simp add: comp_def)
  also have "\<dots> = length kept"
    by (rule count_by_key [OF d s])
  finally show ?thesis by (simp add: kept_def)
qed

lemma export_sheets_no_groups: "export_sheets P df [] = Inr [(''All'', df)]"
  by (simp add: export_sheets_def)

text \<open>
  Claim C1 holds for the rows whose grouping values are all present and for the empty
  grouping list, and fails for a row with a missing grouping value: \<^verbatim>\<open>groupby\<close> leaves
  it out. The long table \<open>air_long\<close> has four rows, the last without a state; its
  sheets by state are one sheet \<open>Maryland\<close> of three rows.
\<close>

theorem export_sheets_drops_row_without_state:
  "export_sheets csv_coercions air_long [''State Name'']
     = Inr [(''Maryland'',
             \<lparr>nrows = 3,
              cols = [(''Pollutant Name'', [Str ''NO2'', Str ''PM2.5'', Str ''NO2'']),
                      (''Date'', [Date 2025 1 10, Date 2025 1 10, Date 2025 1 10]),
                      (''Arithmetic Mean'', [Num (152 / 10), Num (981 / 100), Num 16]),
                      (''State Name'', [Str ''Maryland'', Str ''Maryland'', Str ''Maryland''])]\<rparr>)]
   \<and> nrows air_long = 4"
  by code_simp

text \<open>
  Every group that \<^verbatim>\<open>groupby\<close> forms has a key without missing values, and every row
  of the group's table carries exactly that key; a row with a missing grouping value
  is in none of them.
\<close>

lemma groupby_keys_complete:
  assumes "groupby df names = Inr groups" and "NaN \<in> set (row_key df names i)"
    and "(k, sub) \<in> set groups"
  shows "k \<noteq> row_key df names i \<and> NaN \<notin> set k
           \<and> (\<forall>j < nrows sub. row_key sub names j = k)"
proof (intro conjI allI impI)
  note gg = groupby_group [OF assms(1,3)]
  show "NaN \<notin> set k" using gg by simp
  then show "k \<noteq> row_key df names i" using assms(2) by auto
  fix j assume j: "j < nrows sub"
  define idxs where "idxs = filter (\<lambda>i. row_key df names i = k)
                 (filter (\<lambda>i. NaN \<notin> set (row_key df names i)) [0..<nrows df])"
  have sub: "sub = take_rows df idxs" using gg by (simp add: idxs_def)
  have jl: "j < length idxs" using j sub by simp
  then have "idxs ! j \<in> set idxs" by simp
  then have "row_key df names (idxs ! j) = k" by (simp add: idxs_def)
  then show "row_key sub names j = k"
    using jl by (simp add: sub row_key_take_rows)
qed

text \<open>
  Claim C4 asks that a row with a missing grouping value forms a group key of its own,
  different from every other key. \<^verbatim>\<open>groupby\<close> forms no group for such a row. Grouped by
  pollutant and state, the fourth row of \<open>air_long\<close> has the key (PM10, missing); the
  groups formed are (NO2, Maryland) with the first and third row and (PM2.5, Maryland)
  with the second, so the fourth row has no key among the groups and is in no
  sub-table.
\<close>

theorem groupby_forms_no_group_for_missing_key:
  "groupby air_long [''Pollutant Name'', ''State Name'']
     = Inr [([Str ''NO2'', Str ''Maryland''], take_rows air_long [0, 2]),
            ([Str ''PM2.5'', Str ''Maryland''], take_rows air_long [1])]
   \<and> row_key air_long [''Pollutant Name'', ''State Name''] 3 = [Str ''PM10'', NaN]
   \<and> nrows air_long = 4"
  by code_simp

subsection \<open>The wide pivot\<close>

lemma length_row_key [simp]: "length (row_key df names i) = length names"
  by (simp add: row_key_def)






lemma mean_of_NaN [simp]: "mean_of P xs = NaN \<longleftrightarrow> xs = []"
  by (simp add: mean_of_def)



lemma distinct_pivot_keys: "distinct (pivot_keys P df names values)"
  by (simp add: pivot_keys_def)














end
